theory Spec2Isabelle
  imports Main
begin

text \<open>
  A model of the attendance backend written as a Google Apps Script: the session state
  kept in the script properties, the Attendance sheet that serves as the submission
  ledger, the roll number map, and the handlers \<open>startSession\<close>, \<open>stopSession\<close>,
  \<open>handleStudentSubmission\<close>, \<open>getResponses\<close> and \<open>lookupRollNumber\<close>. The script takes no
  lock, so a submission is modelled in two steps (everything up to the row it is about to
  write, then \<open>appendRow\<close>) that other requests may come between.
\<close>

section \<open>Strings\<close>

text \<open>A JavaScript string is the list of its UTF-16 code units.\<close>

type_synonym jsString = "nat list"

text \<open>A string literal of the script (ASCII text).\<close>

definition str :: "string \<Rightarrow> jsString" where
  "str s = map of_char s"

text \<open>
  The code units \<open>String.prototype.trim\<close> strips: the white space characters (tab,
  vertical tab, form feed, space, no-break space, the byte order mark and the Unicode
  space separators) and the line terminators.
\<close>

definition isWhiteSpace :: "nat \<Rightarrow> bool" where
  "isWhiteSpace u =
     (u \<in> set [0x0009, 0x000A, 0x000B, 0x000C, 0x000D, 0x0020, 0x00A0, 0x1680,
               0x2028, 0x2029, 0x202F, 0x205F, 0x3000, 0xFEFF] \<or>
      (0x2000 \<le> u \<and> u \<le> 0x200A))"

definition trim :: "jsString \<Rightarrow> jsString" where
  "trim s = rev (dropWhile isWhiteSpace (rev (dropWhile isWhiteSpace s)))"

text \<open>A property value or parameter is truthy when it is present and not the empty string.\<close>

definition truthy :: "jsString option \<Rightarrow> bool" where
  "truthy v = (case v of None \<Rightarrow> False | Some s \<Rightarrow> s \<noteq> [])"

text \<open>\<open>(v || '')\<close> on a request parameter.\<close>

definition orEmpty :: "jsString option \<Rightarrow> jsString" where
  "orEmpty v = (case v of None \<Rightarrow> [] | Some s \<Rightarrow> s)"

section \<open>Cells and the platform\<close>

text \<open>
  A cell value as \<open>getValues\<close> returns it: a string, or a value of another type (a
  number, a boolean, a date), which is kept as the string its \<open>toString()\<close> gives. A
  value of another type is never strictly equal (\<open>===\<close>) to a string.
\<close>

datatype cellValue = Text jsString | Typed jsString

fun toString :: "cellValue \<Rightarrow> jsString" where
  "toString (Text s) = s"
| "toString (Typed s) = s"

text \<open>
  What the script takes from the platform and the repository does not hold: the Unicode
  case mapping behind \<open>String.prototype.toLowerCase\<close>, and the value a sheet stores for a
  string written into a cell (text stays text; what reads as a number, a date or a
  boolean is stored as such).
\<close>

record platform =
  toLowerCase :: "jsString \<Rightarrow> jsString"
  entered :: "jsString \<Rightarrow> cellValue"

section \<open>Data model of the Apps Script backend\<close>

text \<open>
  The object stored (as JSON) under the script property \<open>currentSession\<close>.
  \<open>startSession\<close> writes all three fields; \<open>stopSession\<close> on a missing state writes
  \<open>{active: false}\<close> alone, so the two string fields may be absent.
\<close>

record session =
  sessionName :: "jsString option"
  startedAt :: "jsString option"
  active :: bool

text \<open>
  A spreadsheet: its URL and the cell values of the sheet the script reads (the sheet
  named Attendance of the attendance spreadsheet, the first sheet of the roll map), one
  list of cells per row, first row first.
\<close>

record spreadsheet =
  url :: jsString
  cells :: "cellValue list list"

record scriptProperties =
  SHEET_ID :: "jsString option"
  ROLL_MAP_ID :: "jsString option"
  currentSession :: "session option"

text \<open>Everything the script reads and writes: its properties and the spreadsheets by id.\<close>

record world =
  props :: scriptProperties
  drive :: "jsString \<Rightarrow> spreadsheet option"

text \<open>
  A reading of the clock (\<open>new Date()\<close>): milliseconds since the epoch together with
  the three renderings the script stores (\<open>dd/MM/yyyy\<close>, \<open>HH:mm:ss\<close>, ISO 8601).
\<close>

record jsDate =
  epochMs :: int
  dateStr :: jsString
  timeStr :: jsString
  isoString :: jsString

datatype jsError = TypeError | SpreadsheetNotFound

text \<open>
  The JSON objects the handlers answer with: \<open>{error: msg}\<close>, the same with a caught
  exception, and the four success shapes. A row object of \<open>getResponses\<close> is the map from
  its keys to their values.
\<close>

datatype response =
    Error jsString
  | Exception jsError
  | AttendanceRecorded
  | SessionStarted jsString jsString
  | SessionStopped "jsString option"
  | Responses "cellValue list" "(jsString \<Rightarrow> cellValue option) list" nat

text \<open>Session duration of the teacher client (\<open>10 * 60 * 1000\<close>), in milliseconds.\<close>

definition SESSION_DURATION_MS :: int where
  "SESSION_DURATION_MS = 10 * 60 * 1000"

section \<open>Sheet access\<close>

text \<open>\<open>row[j]\<close>: \<open>None\<close> stands for \<open>undefined\<close>.\<close>

definition cell :: "cellValue list \<Rightarrow> nat \<Rightarrow> cellValue option" where
  "cell r j = (if j < length r then Some (r ! j) else None)"

definition padRow :: "nat \<Rightarrow> cellValue list \<Rightarrow> cellValue list" where
  "padRow n r = r @ replicate (n - length r) (Text [])"

definition lastColumn :: "cellValue list list \<Rightarrow> nat" where
  "lastColumn rs = foldr (\<lambda>r m. max (length r) m) rs 1"

text \<open>
  \<open>sheet.getDataRange().getValues()\<close>: a rectangle from the first cell to the last row
  and column holding content, empty cells read as the empty string; an empty sheet reads
  as one row with one empty cell.
\<close>

definition getValues :: "cellValue list list \<Rightarrow> cellValue list list" where
  "getValues rs = (if rs = [] then [[Text []]] else map (padRow (lastColumn rs)) rs)"

text \<open>\<open>SpreadsheetApp.openById\<close> throws for a missing id or spreadsheet.\<close>

definition openById :: "world \<Rightarrow> jsString option \<Rightarrow> jsError + spreadsheet" where
  "openById w sid =
     (case sid of
        None \<Rightarrow> Inl SpreadsheetNotFound
      | Some i \<Rightarrow> (case drive w i of None \<Rightarrow> Inl SpreadsheetNotFound | Some ss \<Rightarrow> Inr ss))"

text \<open>
  \<open>sheet.appendRow\<close> on the spreadsheet with the given id: the strings of the row are
  stored as the sheet enters them.
\<close>

definition appendRow :: "platform \<Rightarrow> jsString \<Rightarrow> jsString list \<Rightarrow> world \<Rightarrow> world" where
  "appendRow P i r w =
     (case drive w i of
        None \<Rightarrow> w
      | Some ss \<Rightarrow> w\<lparr>drive := (drive w)(i \<mapsto> ss\<lparr>cells := cells ss @ [map (entered P) r]\<rparr>)\<rparr>)"

section \<open>Session management\<close>

definition getSessionState :: "world \<Rightarrow> session option" where
  "getSessionState w = currentSession (props w)"

definition setSessionState :: "session option \<Rightarrow> world \<Rightarrow> world" where
  "setSessionState state w = w\<lparr>props := (props w)\<lparr>currentSession := state\<rparr>\<rparr>"

definition startSession :: "jsString \<Rightarrow> jsDate \<Rightarrow> world \<Rightarrow> response \<times> world" where
  "startSession name now w =
     (if name = [] \<or> trim name = [] then (Error (str ''Session name is required''), w)
      else if \<not> truthy (SHEET_ID (props w))
        then (Error (str ''Run initialSetup() first from the script editor''), w)
      else
        let sheetId = orEmpty (SHEET_ID (props w));
            w' = setSessionState
                   (Some \<lparr>sessionName = Some (trim name),
                          startedAt = Some (isoString now),
                          active = True\<rparr>) w;
            sheetUrl = (case openById w' (Some sheetId) of
                          Inr ss \<Rightarrow> url ss
                        | Inl e \<Rightarrow> str ''https://docs.google.com/spreadsheets/d/'' @ sheetId)
        in (SessionStarted (trim name) sheetUrl, w'))"

text \<open>\<open>{ ...session, active: false }\<close>: spreading \<open>null\<close> gives no fields.\<close>

definition stopSession :: "world \<Rightarrow> response \<times> world" where
  "stopSession w =
     (let session = getSessionState w;
          stopped = (case session of
                       None \<Rightarrow> \<lparr>sessionName = None, startedAt = None, active = False\<rparr>
                     | Some s \<Rightarrow> s\<lparr>active := False\<rparr>)
      in (SessionStopped
            (case session of None \<Rightarrow> Some (str ''unknown'') | Some s \<Rightarrow> sessionName s),
          setSessionState (Some stopped) w))"

section \<open>Roll number lookup\<close>

text \<open>The loop of \<open>lookupRollNumber\<close> over the rows after the header.\<close>

fun scanRollMap :: "platform \<Rightarrow> jsString \<Rightarrow> cellValue list list \<Rightarrow> jsError + jsString" where
  "scanRollMap P email [] = Inr (str ''NOT FOUND'')"
| "scanRollMap P email (r # rs) =
     (case cell r 0 of
        None \<Rightarrow> Inl TypeError
      | Some c \<Rightarrow>
          if trim (toLowerCase P (toString c)) = email
          then (case cell r 1 of None \<Rightarrow> Inl TypeError | Some n \<Rightarrow> Inr (toString n))
          else scanRollMap P email rs)"

definition lookupRollNumber :: "platform \<Rightarrow> jsString \<Rightarrow> world \<Rightarrow> jsString" where
  "lookupRollNumber P email w =
     (if \<not> truthy (ROLL_MAP_ID (props w)) then str ''NO MAP''
      else
        (case openById w (ROLL_MAP_ID (props w)) of
           Inl e \<Rightarrow> str ''LOOKUP ERROR''
         | Inr ss \<Rightarrow>
             (case scanRollMap P email (tl (getValues (cells ss))) of
                Inl e \<Rightarrow> str ''LOOKUP ERROR''
              | Inr n \<Rightarrow> n)))"

section \<open>Student submission\<close>

text \<open>
  \<open>cell === name\<close>: a cell is strictly equal to a string when it is that string as text
  (and \<open>undefined\<close> to \<open>undefined\<close>).
\<close>

definition strictEq :: "cellValue option \<Rightarrow> jsString option \<Rightarrow> bool" where
  "strictEq c v = (c = map_option Text v)"

text \<open>
  The duplicate scan of \<open>handleStudentSubmission\<close> over the rows after the header: the
  email cell is compared through \<open>toString().toLowerCase()\<close>, the session cell by \<open>===\<close>.
\<close>

fun scanDuplicate ::
  "platform \<Rightarrow> jsString \<Rightarrow> jsString option \<Rightarrow> cellValue list list \<Rightarrow> jsError + bool" where
  "scanDuplicate P email sn [] = Inr False"
| "scanDuplicate P email sn (r # rs) =
     (case cell r 0 of
        None \<Rightarrow> Inl TypeError
      | Some c \<Rightarrow>
          if toLowerCase P (toString c) = email \<and> strictEq (cell r 2) sn then Inr True
          else scanDuplicate P email sn rs)"

text \<open>
  What a submission has reached when it comes to \<open>appendRow\<close>: its answer, or the sheet
  and the row it is about to write.
\<close>

datatype prepared = Answer response | Append jsString "jsString list"

text \<open>
  \<open>handleStudentSubmission\<close> up to the row it builds: validation, the session check, the
  duplicate scan, the roll number lookup and the clock. A thrown exception is \<open>Inl\<close>. An
  absent session name is written as an empty cell.
\<close>

definition prepareSubmission ::
  "platform \<Rightarrow> (jsString \<Rightarrow> jsString option) \<Rightarrow> jsDate \<Rightarrow> world \<Rightarrow> jsError + prepared" where
  "prepareSubmission P params now w =
     (let email = toLowerCase P (trim (orEmpty (params (str ''email''))));
          name = trim (orEmpty (params (str ''name'')))
      in if email = [] \<or> name = [] then Inr (Answer (Error (str ''Email and name are required'')))
         else
           (case getSessionState w of
              None \<Rightarrow> Inr (Answer (Error (str ''Session is closed'')))
            | Some session \<Rightarrow>
                if \<not> active session then Inr (Answer (Error (str ''Session is closed'')))
                else
                  (case SHEET_ID (props w) of
                     None \<Rightarrow> Inl SpreadsheetNotFound
                   | Some sheetId \<Rightarrow>
                       (case openById w (Some sheetId) of
                          Inl e \<Rightarrow> Inl e
                        | Inr ss \<Rightarrow>
                            (case scanDuplicate P email (sessionName session)
                                    (tl (getValues (cells ss))) of
                               Inl e \<Rightarrow> Inl e
                             | Inr True \<Rightarrow>
                                 Inr (Answer (Error
                                   (str ''You have already submitted for this session'')))
                             | Inr False \<Rightarrow>
                                 let rollNumber = lookupRollNumber P email w
                                 in Inr (Append sheetId
                                          [email, rollNumber, orEmpty (sessionName session),
                                           dateStr now, timeStr now, isoString now]))))))"

text \<open>\<open>handleStudentSubmission\<close> served without another request in between.\<close>

definition handleStudentSubmission ::
  "platform \<Rightarrow> (jsString \<Rightarrow> jsString option) \<Rightarrow> jsDate \<Rightarrow> world \<Rightarrow>
   jsError + response \<times> world" where
  "handleStudentSubmission P params now w =
     (case prepareSubmission P params now w of
        Inl e \<Rightarrow> Inl e
      | Inr (Answer r) \<Rightarrow> Inr (r, w)
      | Inr (Append sheetId row) \<Rightarrow> Inr (AttendanceRecorded, appendRow P sheetId row w))"

section \<open>Reading responses\<close>

fun indexOf :: "cellValue list \<Rightarrow> cellValue \<Rightarrow> nat option" where
  "indexOf [] x = None"
| "indexOf (h # hs) x = (if h = x then Some 0 else map_option Suc (indexOf hs x))"

text \<open>\<open>row[headers[j]] = data[i][j]\<close> for every column: a later equal key overwrites.\<close>

definition rowObject :: "cellValue list \<Rightarrow> cellValue list \<Rightarrow> jsString \<Rightarrow> cellValue option" where
  "rowObject headers r = fold (\<lambda>(h, v) obj. obj(toString h \<mapsto> v)) (zip headers r) Map.empty"

text \<open>The rows \<open>getResponses\<close> does not skip.\<close>

definition keepsRow :: "jsString option \<Rightarrow> nat option \<Rightarrow> cellValue list \<Rightarrow> bool" where
  "keepsRow sessionFilter sessionCol r =
     (\<not> (truthy sessionFilter \<and>
         (case sessionCol of
            None \<Rightarrow> False
          | Some c \<Rightarrow> \<not> strictEq (cell r c) sessionFilter)))"

definition getResponses :: "jsString option \<Rightarrow> world \<Rightarrow> response" where
  "getResponses sessionFilter w =
     (if \<not> truthy (SHEET_ID (props w)) then Error (str ''Sheet not set up'')
      else
        (case openById w (SHEET_ID (props w)) of
           Inl e \<Rightarrow> Exception e
         | Inr ss \<Rightarrow>
             let data = getValues (cells ss) in
             if length data \<le> 1 then Responses (hd data) [] 0
             else
               let headers = hd data;
                   sessionCol = indexOf headers (Text (str ''Session Name''));
                   responses = map (rowObject headers)
                                 (filter (keepsRow sessionFilter sessionCol) (tl data))
               in Responses headers responses (length responses)))"

section \<open>Request dispatch\<close>

datatype request =
    StartSession jsString
  | StopSession
  | UnknownAction jsString
  | Submit "jsString \<Rightarrow> jsString option"

text \<open>
  \<open>doPost\<close>: form submissions go to \<open>handleStudentSubmission\<close>, JSON calls to the action
  they name (any other action is answered as unknown); an exception is caught and
  answered as an error.
\<close>

definition doPost :: "platform \<Rightarrow> request \<Rightarrow> jsDate \<Rightarrow> world \<Rightarrow> response \<times> world" where
  "doPost P req now w =
     (case req of
        StartSession name \<Rightarrow> startSession name now w
      | StopSession \<Rightarrow> stopSession w
      | UnknownAction action \<Rightarrow> (Error (str ''Unknown action: '' @ action), w)
      | Submit params \<Rightarrow>
          (case handleStudentSubmission P params now w of
             Inl e \<Rightarrow> (Exception e, w)
           | Inr res \<Rightarrow> res))"

text \<open>A sequence of requests served one after the other, each with its clock reading.\<close>

fun run :: "platform \<Rightarrow> (request \<times> jsDate) list \<Rightarrow> world \<Rightarrow> world" where
  "run P [] w = w"
| "run P ((req, now) # rest) w = run P rest (snd (doPost P req now w))"

section \<open>Overlapping requests\<close>

text \<open>
  The script runs one execution per request and takes no lock, so between the two steps
  of a submission other executions may run. An event is a request served whole, the
  first step of a submission (numbered, to find its second step), or its \<open>appendRow\<close>.
  The state is the world and the rows the submissions in flight are about to write.
\<close>

datatype event =
    Serve request jsDate
  | Begin nat "jsString \<Rightarrow> jsString option" jsDate
  | Finish nat

type_synonym inFlight = "nat \<Rightarrow> (jsString \<times> jsString list) option"

fun step :: "platform \<Rightarrow> event \<Rightarrow> world \<times> inFlight \<Rightarrow> world \<times> inFlight" where
  "step P (Serve req now) (w, pending) = (snd (doPost P req now w), pending)"
| "step P (Begin k params now) (w, pending) =
     (case prepareSubmission P params now w of
        Inr (Append sheetId row) \<Rightarrow> (w, pending(k \<mapsto> (sheetId, row)))
      | _ \<Rightarrow> (w, pending))"
| "step P (Finish k) (w, pending) =
     (case pending k of
        None \<Rightarrow> (w, pending)
      | Some (sheetId, row) \<Rightarrow> (appendRow P sheetId row w, pending(k := None)))"

fun exec :: "platform \<Rightarrow> event list \<Rightarrow> world \<times> inFlight \<Rightarrow> world \<times> inFlight" where
  "exec P [] c = c"
| "exec P (e # es) c = exec P es (step P e c)"

fun startsSession :: "event \<Rightarrow> bool" where
  "startsSession (Serve (StartSession n) now) = True"
| "startsSession e = False"

section \<open>The submission ledger\<close>

text \<open>The rows after the header row of the Attendance sheet, as \<open>getValues\<close> returns them.\<close>

definition submissionRecords :: "world \<Rightarrow> cellValue list list" where
  "submissionRecords w =
     (case openById w (SHEET_ID (props w)) of
        Inl e \<Rightarrow> []
      | Inr ss \<Rightarrow> tl (getValues (cells ss)))"

text \<open>
  The records of identity \<open>I\<close> (an email in lower case) in the session named \<open>S\<close>: the
  rows whose email cell reads as \<open>I\<close> in lower case and whose session cell reads as \<open>S\<close>.
\<close>

definition recordsFor :: "platform \<Rightarrow> jsString \<Rightarrow> jsString \<Rightarrow> world \<Rightarrow> cellValue list list" where
  "recordsFor P S I w =
     filter (\<lambda>r. map_option (\<lambda>c. toLowerCase P (toString c)) (cell r 0) = Some I \<and>
                 map_option toString (cell r 2) = Some S)
       (submissionRecords w)"

definition atMostOnce :: "platform \<Rightarrow> world \<Rightarrow> bool" where
  "atMostOnce P w = (\<forall>S I. length (recordsFor P S I w) \<le> 1)"

text \<open>The stored rows of the Attendance sheet, header included.\<close>

definition attendanceCells :: "world \<Rightarrow> cellValue list list" where
  "attendanceCells w =
     (case openById w (SHEET_ID (props w)) of Inl e \<Rightarrow> [] | Inr ss \<Rightarrow> cells ss)"

text \<open>The retention window the clients announce (two days), in milliseconds.\<close>

definition RETENTION_WINDOW_MS :: int where
  "RETENTION_WINDOW_MS = 2 * 24 * 60 * 60 * 1000"

section \<open>Sample platforms, worlds and requests\<close>

text \<open>A case mapping that lowers the letters A to Z and leaves every other code unit.\<close>

definition lowerUnit :: "nat \<Rightarrow> nat" where
  "lowerUnit u = (if 65 \<le> u \<and> u \<le> 90 then u + 32 else u)"

text \<open>A decimal numeral: digits only, with no leading zero.\<close>

definition isDecimal :: "jsString \<Rightarrow> bool" where
  "isDecimal s =
     (s \<noteq> [] \<and> list_all (\<lambda>u. 48 \<le> u \<and> u \<le> 57) s \<and> (length s = 1 \<or> hd s \<noteq> 48))"

text \<open>A sheet that stores every string as text, and one that stores numerals as numbers.\<close>

definition plainSheet :: platform where
  "plainSheet = \<lparr>toLowerCase = map lowerUnit, entered = Text\<rparr>"

definition numberSheet :: platform where
  "numberSheet = \<lparr>toLowerCase = map lowerUnit,
                   entered = (\<lambda>s. if isDecimal s then Typed s else Text s)\<rparr>"

text \<open>
  \<open>initialSetup\<close>: the two spreadsheets it creates (their ids are given by the platform)
  and the properties it saves.
\<close>

definition initialSetup :: "jsString \<Rightarrow> jsString \<Rightarrow> world" where
  "initialSetup sheetId rollMapId =
     \<lparr>props = \<lparr>SHEET_ID = Some sheetId, ROLL_MAP_ID = Some rollMapId, currentSession = None\<rparr>,
      drive = [sheetId \<mapsto>
                 \<lparr>url = str ''https://docs.google.com/spreadsheets/d/'' @ sheetId @ str ''/edit'',
                  cells = [map (\<lambda>h. Text (str h))
                             [''Email'', ''Roll Number'', ''Session Name'', ''Date'', ''Time'',
                              ''Timestamp'']]\<rparr>,
               rollMapId \<mapsto>
                 \<lparr>url = str ''https://docs.google.com/spreadsheets/d/'' @ rollMapId @ str ''/edit'',
                  cells = map (map (\<lambda>h. Text (str h)))
                            [[''Email'', ''RollNumber''],
                             [''student1@college.edu'', ''21ME001''],
                             [''student2@college.edu'', ''21ME002'']]\<rparr>]\<rparr>"

definition world0 :: world where
  "world0 = initialSetup (str ''sheet-1'') (str ''rollmap-1'')"

text \<open>The script before \<open>initialSetup\<close> has run: no property, no spreadsheet.\<close>

definition freshWorld :: world where
  "freshWorld = \<lparr>props = \<lparr>SHEET_ID = None, ROLL_MAP_ID = None, currentSession = None\<rparr>,
                 drive = Map.empty\<rparr>"

text \<open>A clock reading from its milliseconds and its three renderings.\<close>

definition atTime :: "int \<Rightarrow> string \<Rightarrow> string \<Rightarrow> string \<Rightarrow> jsDate" where
  "atTime ms d t i = \<lparr>epochMs = ms, dateStr = str d, timeStr = str t, isoString = str i\<rparr>"

definition sessionStart :: jsDate where
  "sessionStart = atTime 0 ''01/01/1970'' ''00:00:00'' ''1970-01-01T00:00:00.000Z''"

definition afterDuration :: jsDate where
  "afterDuration = atTime 600001 ''01/01/1970'' ''00:10:00'' ''1970-01-01T00:10:00.001Z''"

definition afterRetention :: jsDate where
  "afterRetention = atTime 259200000 ''04/01/1970'' ''00:00:00'' ''1970-01-04T00:00:00.000Z''"

text \<open>The form the student page posts: \<open>email\<close>, \<open>name\<close> and \<open>submit=true\<close>.\<close>

definition formOf :: "string \<Rightarrow> string \<Rightarrow> jsString \<Rightarrow> jsString option" where
  "formOf email name =
     [str ''email'' \<mapsto> str email, str ''name'' \<mapsto> str name, str ''submit'' \<mapsto> str ''true'']"

definition student1 :: "jsString \<Rightarrow> jsString option" where
  "student1 = formOf ''student1@college.edu'' ''Ann''"

text \<open>A form that also carries a device identifier, as the mobile client sends one.\<close>

definition withDevice ::
  "string \<Rightarrow> (jsString \<Rightarrow> jsString option) \<Rightarrow> jsString \<Rightarrow> jsString option" where
  "withDevice d params = params(str ''deviceId'' \<mapsto> str d)"

text \<open>Two executions of the same submission that overlap: both scan before either writes.\<close>

definition raceEvents :: "event list" where
  "raceEvents =
     [Serve (StartSession (str ''Maths'')) sessionStart,
      Begin 1 student1 sessionStart, Begin 2 student1 sessionStart,
      Finish 1, Finish 2]"

text \<open>A session named by a numeral, and the same student submitting twice, one after the other.\<close>

definition numericName :: "(request \<times> jsDate) list" where
  "numericName =
     [(StartSession (str ''101''), sessionStart), (Submit student1, sessionStart),
      (Submit student1, afterDuration)]"

definition mathsWorld :: world where
  "mathsWorld = snd (startSession (str ''Maths'') sessionStart world0)"


definition stopAfterTwo :: "(request \<times> jsDate) list" where
  "stopAfterTwo =
     [(StartSession (str ''S1''), sessionStart), (StartSession (str ''S2''), sessionStart),
      (StopSession, afterDuration)]"

definition oldSession :: "(request \<times> jsDate) list" where
  "oldSession =
     [(StartSession (str ''Maths''), sessionStart), (Submit student1, sessionStart),
      (StopSession, afterDuration)]"

definition student2 :: "jsString \<Rightarrow> jsString option" where
  "student2 = formOf '' Student2@College.EDU'' ''Bob''"

definition nobody :: "jsString \<Rightarrow> jsString option" where
  "nobody = formOf ''Nobody@College.edu'' ''Nemo''"

definition mixedCase :: "jsString \<Rightarrow> jsString option" where
  "mixedCase = formOf '' student1@COLLEGE.edu'' ''Ann''"

text \<open>The world after the session of \<open>oldSession\<close>, its header row and its one record.\<close>

definition oldWorld :: world where
  "oldWorld = run plainSheet oldSession world0"

definition headerRow :: "cellValue list" where
  "headerRow = map (\<lambda>h. Text (str h))
                 [''Email'', ''Roll Number'', ''Session Name'', ''Date'', ''Time'', ''Timestamp'']"

definition mathsRow :: "cellValue list" where
  "mathsRow = map (\<lambda>h. Text (str h))
                [''student1@college.edu'', ''21ME001'', ''Maths'', ''01/01/1970'', ''00:00:00'',
                 ''1970-01-01T00:00:00.000Z'']"

text \<open>A second session created while the first is active, and one submission in two steps.\<close>

definition physicsWorld :: world where
  "physicsWorld = snd (startSession (str '' Physics '') afterDuration mathsWorld)"

definition splitSubmission :: "event list" where
  "splitSubmission = [Begin 1 student1 afterDuration, Finish 1]"

text \<open>The row that submission appends.\<close>

definition physicsRow :: "cellValue list" where
  "physicsRow = map (\<lambda>h. Text (str h))
                  [''student1@college.edu'', ''21ME001'', ''Physics'', ''01/01/1970'',
                   ''00:10:00'', ''1970-01-01T00:10:00.001Z'']"


section \<open>An invariant of the session name\<close>

text \<open>
  While no session is started, the current session keeps its name, and every row in
  flight either was in flight before or carries that name.
\<close>

definition namedOrOld :: "jsString \<Rightarrow> inFlight \<Rightarrow> world \<times> inFlight \<Rightarrow> bool" where
  "namedOrOld m old c =
     ((\<exists>s. getSessionState (fst c) = Some s \<and> sessionName s = Some m) \<and>
      (\<forall>k i row. snd c k = Some (i, row) \<longrightarrow>
          (2 < length row \<and> row ! 2 = m) \<or> (\<exists>k' i'. old k' = Some (i', row))))"

section \<open>Evaluation and basic facts\<close>

lemmas eval_defs = world0_def initialSetup_def atTime_def formOf_def doPost_def startSession_def
   handleStudentSubmission_def prepareSubmission_def stopSession_def getSessionState_def
   setSessionState_def Let_def strictEq_def
   truthy_def orEmpty_def openById_def appendRow_def lookupRollNumber_def getValues_def
   lastColumn_def padRow_def cell_def trim_def isWhiteSpace_def str_def
   plainSheet_def numberSheet_def lowerUnit_def isDecimal_def
   sessionStart_def afterDuration_def afterRetention_def student1_def withDevice_def
   mathsWorld_def student2_def nobody_def mixedCase_def

lemma str_eq_iff: "(str a = str b) = (a = b)"
  by (simp add: str_def inj_map_eq_map inj_def)

lemma str_Nil_iff: "(str a = []) = (a = [])"
  by (simp add: str_def)

lemma trim_Nil: "trim [] = []"
  by (simp add: trim_def)

subsection \<open>Effects of the handlers\<close>

lemma props_appendRow: "props (appendRow P i r w) = props w"
  by (simp add: appendRow_def split: option.splits)

lemma drive_startSession: "drive (snd (startSession name now w)) = drive w"
  by (simp add: startSession_def setSessionState_def Let_def)

lemma drive_stopSession: "drive (snd (stopSession w)) = drive w"
  by (simp add: stopSession_def setSessionState_def Let_def)

lemma SHEET_ID_startSession:
  "SHEET_ID (props (snd (startSession name now w))) = SHEET_ID (props w)"
  by (simp add: startSession_def setSessionState_def Let_def)

lemma SHEET_ID_stopSession: "SHEET_ID (props (snd (stopSession w))) = SHEET_ID (props w)"
  by (simp add: stopSession_def setSessionState_def Let_def)

lemma openById_drive: "drive w' = drive w \<Longrightarrow> openById w' = openById w"
  by (rule ext) (simp add: openById_def split: option.splits)

text \<open>What a submission that reaches \<open>appendRow\<close> has read.\<close>

lemma prepare_Append:
  assumes "prepareSubmission P params now w = Inr (Append i row)"
  shows "\<exists>s ss. getSessionState w = Some s \<and> active s \<and> SHEET_ID (props w) = Some i \<and>
           drive w i = Some ss \<and>
           scanDuplicate P (toLowerCase P (trim (orEmpty (params (str ''email'')))))
             (sessionName s) (tl (getValues (cells ss))) = Inr False \<and>
           toLowerCase P (trim (orEmpty (params (str ''email'')))) \<noteq> [] \<and>
           trim (orEmpty (params (str ''name''))) \<noteq> [] \<and>
           row = [toLowerCase P (trim (orEmpty (params (str ''email'')))),
                  lookupRollNumber P (toLowerCase P (trim (orEmpty (params (str ''email'')))))  w,
                  orEmpty (sessionName s), dateStr now, timeStr now, isoString now]"
  using assms
  by (auto simp: prepareSubmission_def Let_def openById_def
      split: option.splits sum.splits bool.splits if_splits)

lemma handle_Answer:
  "prepareSubmission P params now w = Inr (Answer r) \<Longrightarrow>
   handleStudentSubmission P params now w = Inr (r, w)"
  by (simp add: handleStudentSubmission_def)

lemma inactive_session_rejects:
  assumes "getSessionState w = Some s" "\<not> active s"
    "toLowerCase P (trim (orEmpty (p (str ''email'')))) \<noteq> []"
    "trim (orEmpty (p (str ''name''))) \<noteq> []"
  shows "handleStudentSubmission P p now w = Inr (Error (str ''Session is closed''), w)"
  using assms by (simp add: handleStudentSubmission_def prepareSubmission_def Let_def)

text \<open>A submission served whole either leaves the world as it was or appends its row.\<close>

lemma submit_effect:
  "snd (doPost P (Submit params) now w) = w \<or>
   (\<exists>i row. prepareSubmission P params now w = Inr (Append i row) \<and>
      fst (doPost P (Submit params) now w) = AttendanceRecorded \<and>
      snd (doPost P (Submit params) now w) = appendRow P i row w)"
  by (auto simp: doPost_def handleStudentSubmission_def split: sum.splits prepared.splits)

text \<open>A submission that passes every check is accepted.\<close>

lemma submission_accepted:
  assumes "getSessionState w = Some s" and "active s"
    and "toLowerCase P (trim (orEmpty (p (str ''email'')))) \<noteq> []"
    and "trim (orEmpty (p (str ''name''))) \<noteq> []"
    and "SHEET_ID (props w) = Some i" and "drive w i = Some ss"
    and "scanDuplicate P (toLowerCase P (trim (orEmpty (p (str ''email'')))))
           (sessionName s) (tl (getValues (cells ss))) = Inr False"
  shows "fst (doPost P (Submit p) d w) = AttendanceRecorded"
  using assms
  by (simp add: doPost_def handleStudentSubmission_def prepareSubmission_def Let_def openById_def)

lemma prepare_Answer:
  "prepareSubmission P p d w = Inr (Answer r) \<Longrightarrow> r \<noteq> AttendanceRecorded"
  by (auto simp: prepareSubmission_def Let_def
      split: option.splits sum.splits bool.splits if_splits)

subsection \<open>Rows are only ever appended\<close>

lemma attendanceCells_appendRow:
  "attendanceCells (appendRow P i r w) =
     attendanceCells w @
       (if SHEET_ID (props w) = Some i \<and> drive w i \<noteq> None then [map (entered P) r] else [])"
  by (auto simp: attendanceCells_def appendRow_def openById_def split: option.splits)

lemma attendanceCells_startSession:
  "attendanceCells (snd (startSession name now w)) = attendanceCells w"
  by (simp add: attendanceCells_def SHEET_ID_startSession
      openById_drive[OF drive_startSession])

lemma attendanceCells_stopSession: "attendanceCells (snd (stopSession w)) = attendanceCells w"
  by (simp add: attendanceCells_def SHEET_ID_stopSession openById_drive[OF drive_stopSession])

text \<open>
  One event appends at most the row of the submission it finishes or serves, and
  removes nothing.
\<close>

lemma step_cells:
  "\<exists>new. attendanceCells (fst (step P e (w, pending))) = attendanceCells w @ new \<and>
     (\<forall>r \<in> set new.
        (\<exists>k i row. e = Finish k \<and> pending k = Some (i, row) \<and> r = map (entered P) row) \<or>
        (\<exists>p d i row. e = Serve (Submit p) d \<and>
            prepareSubmission P p d w = Inr (Append i row) \<and> r = map (entered P) row))"
proof (cases e)
  case (Serve req now)
  show ?thesis
  proof (cases req)
    case (StartSession name)
    then show ?thesis by (simp add: Serve doPost_def attendanceCells_startSession)
  next
    case StopSession
    then show ?thesis by (simp add: Serve doPost_def attendanceCells_stopSession)
  next
    case (UnknownAction a)
    then show ?thesis by (simp add: Serve doPost_def)
  next
    case (Submit params)
    from submit_effect[of P params now w] show ?thesis
    proof
      assume "snd (doPost P (Submit params) now w) = w"
      then show ?thesis by (simp add: Serve Submit)
    next
      assume "\<exists>i row. prepareSubmission P params now w = Inr (Append i row) \<and>
        fst (doPost P (Submit params) now w) = AttendanceRecorded \<and>
        snd (doPost P (Submit params) now w) = appendRow P i row w"
      then obtain i row where h: "prepareSubmission P params now w = Inr (Append i row)"
        "snd (doPost P (Submit params) now w) = appendRow P i row w" by blast
      show ?thesis
        using h by (simp add: Serve Submit attendanceCells_appendRow)
    qed
  qed
next
  case (Begin k params now)
  then show ?thesis by (simp split: sum.splits prepared.splits)
next
  case (Finish k)
  then show ?thesis by (auto simp: attendanceCells_appendRow split: option.splits)
qed

lemma exec_cells_grow:
  "\<exists>new. attendanceCells (fst (exec P es c)) = attendanceCells (fst c) @ new"
proof (induction es arbitrary: c)
  case Nil
  then show ?case by simp
next
  case (Cons e es)
  obtain w pending where c: "c = (w, pending)" by (cases c)
  obtain new1 where "attendanceCells (fst (step P e (w, pending))) = attendanceCells w @ new1"
    using step_cells[of P e w pending] by blast
  moreover obtain new2 where
    "attendanceCells (fst (exec P es (step P e (w, pending)))) =
       attendanceCells (fst (step P e (w, pending))) @ new2"
    using Cons.IH by blast
  ultimately show ?case by (simp add: c)
qed

text \<open>The session state, once written, is never deleted.\<close>

lemma step_session_kept:
  "getSessionState w \<noteq> None \<Longrightarrow> getSessionState (fst (step P e (w, pending))) \<noteq> None"
proof (cases e)
  case (Serve req now)
  assume a: "getSessionState w \<noteq> None"
  show ?thesis
  proof (cases req)
    case (Submit params)
    from submit_effect[of P params now w] a show ?thesis
      by (auto simp: Serve Submit getSessionState_def props_appendRow)
  qed (use a in \<open>auto simp: Serve doPost_def startSession_def stopSession_def
        getSessionState_def setSessionState_def Let_def\<close>)
next
  case (Begin k params now)
  assume "getSessionState w \<noteq> None"
  then show ?thesis by (simp add: Begin split: sum.splits prepared.splits)
next
  case (Finish k)
  assume "getSessionState w \<noteq> None"
  then show ?thesis
    by (auto simp: Finish getSessionState_def props_appendRow split: option.splits)
qed

lemma exec_session_kept:
  "getSessionState (fst c) \<noteq> None \<Longrightarrow> getSessionState (fst (exec P es c)) \<noteq> None"
proof (induction es arbitrary: c)
  case Nil
  then show ?case by simp
next
  case (Cons e es)
  obtain w pending where c: "c = (w, pending)" by (cases c)
  have "getSessionState (fst (step P e (w, pending))) \<noteq> None"
    using Cons.prems step_session_kept[of w P e pending] by (simp add: c)
  from Cons.IH[OF this] show ?case by (simp add: c)
qed

subsection \<open>Rows carry the name of the current session\<close>

lemma prepare_row_name:
  assumes "prepareSubmission P p d w = Inr (Append i row)"
    "getSessionState w = Some s" "sessionName s = Some m"
  shows "2 < length row \<and> row ! 2 = m \<and>
         row ! 0 = toLowerCase P (trim (orEmpty (p (str ''email''))))"
  using prepare_Append[OF assms(1)] assms(2,3) by (auto simp: orEmpty_def)

lemma step_namedOrOld:
  assumes "namedOrOld m old (w, pending)" "\<not> startsSession e"
  shows "namedOrOld m old (step P e (w, pending)) \<and>
         (\<exists>new. attendanceCells (fst (step P e (w, pending))) = attendanceCells w @ new \<and>
            (\<forall>r \<in> set new. cell r 2 = Some (entered P m) \<or>
               (\<exists>k i row. old k = Some (i, row) \<and> r = map (entered P) row)))"
proof -
  obtain s where s: "getSessionState w = Some s" "sessionName s = Some m"
    using assms(1) by (auto simp: namedOrOld_def)
  have pend: "\<And>k i row. pending k = Some (i, row) \<Longrightarrow>
      (2 < length row \<and> row ! 2 = m) \<or> (\<exists>k' i'. old k' = Some (i', row))"
    using assms(1) by (auto simp: namedOrOld_def)
  have inv: "namedOrOld m old (step P e (w, pending))"
  proof (cases e)
    case (Serve req now)
    show ?thesis
    proof (cases req)
      case (StartSession name)
      then show ?thesis using assms(2) Serve by simp
    next
      case StopSession
      then show ?thesis
        using s pend
        by (auto simp: Serve namedOrOld_def doPost_def stopSession_def getSessionState_def
            setSessionState_def Let_def)
    next
      case (UnknownAction a)
      then show ?thesis using assms(1) by (simp add: Serve doPost_def namedOrOld_def)
    next
      case (Submit params)
      from submit_effect[of P params now w]
      have "getSessionState (snd (doPost P (Submit params) now w)) = getSessionState w"
        by (auto simp: getSessionState_def props_appendRow)
      then show ?thesis
        using s pend by (auto simp: Serve Submit namedOrOld_def)
    qed
  next
    case (Begin k params now)
    show ?thesis
    proof (cases "prepareSubmission P params now w")
      case (Inl err)
      then show ?thesis using assms(1) by (simp add: Begin)
    next
      case (Inr pr)
      show ?thesis
      proof (cases pr)
        case (Answer r)
        then show ?thesis using assms(1) Inr by (simp add: Begin)
      next
        case (Append i row)
        with Inr have "prepareSubmission P params now w = Inr (Append i row)" by simp
        from prepare_row_name[OF this s] have "2 < length row \<and> row ! 2 = m" by simp
        then show ?thesis
          using s pend Inr Append by (auto simp: Begin namedOrOld_def)
      qed
    qed
  next
    case (Finish k)
    show ?thesis
      using s pend
      by (auto simp: Finish namedOrOld_def getSessionState_def props_appendRow
          split: option.splits)
  qed
  obtain new where new: "attendanceCells (fst (step P e (w, pending))) = attendanceCells w @ new"
    "\<forall>r \<in> set new.
        (\<exists>k i row. e = Finish k \<and> pending k = Some (i, row) \<and> r = map (entered P) row) \<or>
        (\<exists>p d i row. e = Serve (Submit p) d \<and>
            prepareSubmission P p d w = Inr (Append i row) \<and> r = map (entered P) row)"
    using step_cells[of P e w pending] by blast
  have "\<forall>r \<in> set new. cell r 2 = Some (entered P m) \<or>
               (\<exists>k i row. old k = Some (i, row) \<and> r = map (entered P) row)"
  proof
    fix r assume r: "r \<in> set new"
    from new(2)[rule_format, OF r] consider
      (fin) k i row where "pending k = Some (i, row)" "r = map (entered P) row" |
      (srv) p d i row where "prepareSubmission P p d w = Inr (Append i row)"
        "r = map (entered P) row"
      by blast
    then show "cell r 2 = Some (entered P m) \<or>
               (\<exists>k i row. old k = Some (i, row) \<and> r = map (entered P) row)"
    proof cases
      case fin
      from pend[OF fin(1)] show ?thesis
      proof
        assume "2 < length row \<and> row ! 2 = m"
        then show ?thesis by (simp add: fin(2) cell_def)
      next
        assume "\<exists>k' i'. old k' = Some (i', row)"
        then show ?thesis using fin(2) by blast
      qed
    next
      case srv
      from prepare_row_name[OF srv(1) s] show ?thesis by (simp add: srv(2) cell_def)
    qed
  qed
  with inv new(1) show ?thesis by blast
qed

lemma exec_namedOrOld:
  assumes "namedOrOld m old c" "list_all (\<lambda>e. \<not> startsSession e) es"
  shows "namedOrOld m old (exec P es c) \<and>
         (\<exists>new. attendanceCells (fst (exec P es c)) = attendanceCells (fst c) @ new \<and>
            (\<forall>r \<in> set new. cell r 2 = Some (entered P m) \<or>
               (\<exists>k i row. old k = Some (i, row) \<and> r = map (entered P) row)))"
  using assms
proof (induction es arbitrary: c)
  case Nil
  then show ?case by simp
next
  case (Cons e es)
  obtain w pending where c: "c = (w, pending)" by (cases c)
  from Cons.prems have ns: "\<not> startsSession e" and rest: "list_all (\<lambda>e. \<not> startsSession e) es"
    by simp_all
  from step_namedOrOld[OF Cons.prems(1)[unfolded c] ns, of P]
  obtain new1 where s1: "namedOrOld m old (step P e (w, pending))"
    "attendanceCells (fst (step P e (w, pending))) = attendanceCells w @ new1"
    "\<forall>r \<in> set new1. cell r 2 = Some (entered P m) \<or>
               (\<exists>k i row. old k = Some (i, row) \<and> r = map (entered P) row)"
    by blast
  from Cons.IH[OF s1(1) rest]
  obtain new2 where s2: "namedOrOld m old (exec P es (step P e (w, pending)))"
    "attendanceCells (fst (exec P es (step P e (w, pending)))) =
       attendanceCells (fst (step P e (w, pending))) @ new2"
    "\<forall>r \<in> set new2. cell r 2 = Some (entered P m) \<or>
               (\<exists>k i row. old k = Some (i, row) \<and> r = map (entered P) row)"
    by blast
  have "attendanceCells (fst (exec P (e # es) c)) = attendanceCells (fst c) @ (new1 @ new2)"
    using s1(2) s2(2) by (simp add: c)
  moreover have "\<forall>r \<in> set (new1 @ new2). cell r 2 = Some (entered P m) \<or>
               (\<exists>k i row. old k = Some (i, row) \<and> r = map (entered P) row)"
    using s1(3) s2(3) by auto
  ultimately show ?case using s2(1) by (auto simp: c)
qed

text \<open>An accepted submission appends exactly its row, under the current session's name.\<close>

lemma accepted_appends:
  assumes "fst (doPost P (Submit p) d w) = AttendanceRecorded"
    "getSessionState w = Some s" "sessionName s = Some m"
  shows "\<exists>row. attendanceCells (snd (doPost P (Submit p) d w)) = attendanceCells w @ [row] \<and>
           cell row 0 = Some (entered P (toLowerCase P (trim (orEmpty (p (str ''email'')))))) \<and>
           cell row 2 = Some (entered P m)"
proof -
  from assms(1) obtain i row where pr: "prepareSubmission P p d w = Inr (Append i row)"
    by (auto simp: doPost_def handleStudentSubmission_def dest: prepare_Answer
        split: sum.splits prepared.splits)
  then have w': "snd (doPost P (Submit p) d w) = appendRow P i row w"
    by (simp add: doPost_def handleStudentSubmission_def)
  from prepare_Append[OF pr] have "SHEET_ID (props w) = Some i \<and> drive w i \<noteq> None" by auto
  then have "attendanceCells (appendRow P i row w) = attendanceCells w @ [map (entered P) row]"
    by (simp add: attendanceCells_appendRow)
  moreover from prepare_row_name[OF pr assms(2,3)]
  have "cell (map (entered P) row) 0 =
          Some (entered P (toLowerCase P (trim (orEmpty (p (str ''email'')))))) \<and>
        cell (map (entered P) row) 2 = Some (entered P m)"
    by (auto simp: cell_def)
  ultimately show ?thesis using w' by simp
qed

subsection \<open>Reading the sheets\<close>

lemma length_getValues: "cs \<noteq> [] \<Longrightarrow> length (getValues cs) = length cs"
  by (simp add: getValues_def)

lemma oldWorld_sheet:
  "openById oldWorld (SHEET_ID (props oldWorld)) =
     Inr \<lparr>url = str ''https://docs.google.com/spreadsheets/d/sheet-1/edit'',
          cells = [headerRow, mathsRow]\<rparr>"
  by (simp add: oldWorld_def oldSession_def headerRow_def mathsRow_def eval_defs)

lemma set_tl_subset: "x \<in> set (tl xs) \<Longrightarrow> x \<in> set xs"
  by (cases xs) simp_all

lemma lastColumn_pos: "1 \<le> lastColumn rs"
  by (induction rs) (simp_all add: lastColumn_def)

lemma getValues_cell0: "r \<in> set (getValues cs) \<Longrightarrow> cell r 0 \<noteq> None"
proof (cases "cs = []")
  case True
  assume "r \<in> set (getValues cs)"
  with True show ?thesis by (simp add: getValues_def cell_def)
next
  case False
  assume "r \<in> set (getValues cs)"
  with False obtain r0 where "r = padRow (lastColumn cs) r0"
    by (auto simp: getValues_def)
  moreover have "0 < lastColumn cs" using lastColumn_pos[of cs] by simp
  ultimately show ?thesis by (simp add: cell_def padRow_def)
qed



subsection \<open>The duplicate scan\<close>

lemma scanDuplicate_finds:
  assumes "\<forall>r \<in> set rs. cell r 0 \<noteq> None"
    and "r \<in> set rs"
    and "map_option (\<lambda>c. toLowerCase P (toString c)) (cell r 0) = Some email"
    and "cell r 2 = Some (Text S)"
  shows "scanDuplicate P email (Some S) rs = Inr True"
  using assms by (induction rs) (auto simp: strictEq_def split: option.splits)

text \<open>
  Served alone, a submission for a pair that has a record whose session cell is the
  session name as text is refused, and nothing is written.
\<close>

lemma recorded_pair_is_refused:
  assumes "getSessionState w = Some s" and "active s" and "sessionName s = Some S"
    and "email = toLowerCase P (trim (orEmpty (p (str ''email''))))" and "email \<noteq> []"
    and "trim (orEmpty (p (str ''name''))) \<noteq> []"
    and "r \<in> set (submissionRecords w)"
    and "map_option (\<lambda>c. toLowerCase P (toString c)) (cell r 0) = Some email"
    and "cell r 2 = Some (Text S)"
  shows "handleStudentSubmission P p now w =
           Inr (Error (str ''You have already submitted for this session''), w)"
proof -
  obtain ss where op: "openById w (SHEET_ID (props w)) = Inr ss"
    and r: "r \<in> set (tl (getValues (cells ss)))"
  proof (cases "openById w (SHEET_ID (props w))")
    case (Inl e)
    with assms(7) show ?thesis by (simp add: submissionRecords_def)
  next
    case (Inr ss)
    with assms(7) that show ?thesis by (simp add: submissionRecords_def)
  qed
  from op obtain i where i: "SHEET_ID (props w) = Some i" "drive w i = Some ss"
    by (auto simp: openById_def split: option.splits)
  have "\<forall>r' \<in> set (tl (getValues (cells ss))). cell r' 0 \<noteq> None"
    using getValues_cell0[of _ "cells ss"] by (blast dest: set_tl_subset)
  from scanDuplicate_finds[OF this r assms(8,9)]
  have "scanDuplicate P email (Some S) (tl (getValues (cells ss))) = Inr True" .
  then show ?thesis
    using assms(1-6) i
    by (simp add: handleStudentSubmission_def prepareSubmission_def Let_def openById_def)
qed

section \<open>Claims\<close>

text \<open>
  C1. For every session S and identity I at most one submission record should exist for
  (S, I). The script scans for a duplicate before it writes, and served one after the
  other under a session name the sheet keeps as text the second submission is refused.
  But it takes no lock between the scan and \<open>appendRow\<close>: two overlapping executions of
  the same submission both pass the scan and both write. And it compares the session
  cell with \<open>===\<close> and no \<open>toString()\<close>: under a session name the sheet stores as a
  number the scan never matches. In both cases the pair is recorded twice.
\<close>

theorem duplicate_records_at_failing_inputs:
  "fst (doPost plainSheet (Submit student1) afterDuration
          (run plainSheet [(StartSession (str ''Maths''), sessionStart),
                           (Submit student1, sessionStart)] world0)) =
     Error (str ''You have already submitted for this session'') \<and>
   length (recordsFor plainSheet (str ''Maths'') (str ''student1@college.edu'')
     (fst (exec plainSheet raceEvents (world0, Map.empty)))) = 2 \<and>
   \<not> atMostOnce plainSheet (fst (exec plainSheet raceEvents (world0, Map.empty))) \<and>
   length (recordsFor numberSheet (str ''101'') (str ''student1@college.edu'')
     (run numberSheet numericName world0)) = 2 \<and>
   \<not> atMostOnce numberSheet (run numberSheet numericName world0)"
proof -
  have refused: "fst (doPost plainSheet (Submit student1) afterDuration
          (run plainSheet [(StartSession (str ''Maths''), sessionStart),
                           (Submit student1, sessionStart)] world0)) =
     Error (str ''You have already submitted for this session'')"
    by (simp add: eval_defs)
  have raced: "length (recordsFor plainSheet (str ''Maths'') (str ''student1@college.edu'')
     (fst (exec plainSheet raceEvents (world0, Map.empty)))) = 2"
    by (simp add: raceEvents_def recordsFor_def submissionRecords_def eval_defs)
  have numeric: "length (recordsFor numberSheet (str ''101'') (str ''student1@college.edu'')
     (run numberSheet numericName world0)) = 2"
    by (simp add: numericName_def recordsFor_def submissionRecords_def eval_defs)
  have "\<not> atMostOnce plainSheet (fst (exec plainSheet raceEvents (world0, Map.empty)))"
  proof
    assume "atMostOnce plainSheet (fst (exec plainSheet raceEvents (world0, Map.empty)))"
    then have "length (recordsFor plainSheet (str ''Maths'') (str ''student1@college.edu'')
       (fst (exec plainSheet raceEvents (world0, Map.empty)))) \<le> 1"
      unfolding atMostOnce_def by blast
    with raced show False by simp
  qed
  moreover have "\<not> atMostOnce numberSheet (run numberSheet numericName world0)"
  proof
    assume "atMostOnce numberSheet (run numberSheet numericName world0)"
    then have "length (recordsFor numberSheet (str ''101'') (str ''student1@college.edu'')
       (run numberSheet numericName world0)) \<le> 1"
      unfolding atMostOnce_def by blast
    with numeric show False by simp
  qed
  ultimately show ?thesis using refused raced numeric by simp
qed

text \<open>
  C2 as stated fails: ten minutes and one millisecond after the session was started, with
  no stop request in between, a submission is recorded.
\<close>

theorem late_submission_counterexample:
  "epochMs sessionStart + SESSION_DURATION_MS < epochMs afterDuration \<and>
   fst (doPost plainSheet (Submit student1) afterDuration
          (snd (doPost plainSheet (StartSession (str ''Maths'')) sessionStart world0))) =
     AttendanceRecorded"
  by (simp add: SESSION_DURATION_MS_def eval_defs)

text \<open>
  C2 (amended). The script does not compare the clock with the start of the session: a
  submission with an email and a name is answered "Session is closed" exactly when there
  is no current session or its \<open>active\<close> flag is false, whatever the time; after
  \<open>stopSession\<close> every such submission is refused.
\<close>

theorem session_closed_by_flag_only:
  assumes "toLowerCase P (trim (orEmpty (params (str ''email'')))) \<noteq> []"
    and "trim (orEmpty (params (str ''name''))) \<noteq> []"
  shows "(handleStudentSubmission P params now w = Inr (Error (str ''Session is closed''), w)) =
           (case getSessionState w of None \<Rightarrow> True | Some s \<Rightarrow> \<not> active s) \<and>
         handleStudentSubmission P params now (snd (stopSession w)) =
           Inr (Error (str ''Session is closed''), snd (stopSession w))"
proof (intro conjI)
  show "(handleStudentSubmission P params now w = Inr (Error (str ''Session is closed''), w)) =
           (case getSessionState w of None \<Rightarrow> True | Some s \<Rightarrow> \<not> active s)"
    using assms
    by (auto simp: handleStudentSubmission_def prepareSubmission_def Let_def str_eq_iff
        split: option.splits sum.splits bool.splits)
next
  show "handleStudentSubmission P params now (snd (stopSession w)) =
           Inr (Error (str ''Session is closed''), snd (stopSession w))"
    using assms
    by (simp add: handleStudentSubmission_def prepareSubmission_def Let_def stopSession_def
        getSessionState_def setSessionState_def split: option.splits)
qed

theorem session_closed_by_flag_only_witness:
  "toLowerCase plainSheet (trim (orEmpty (student1 (str ''email'')))) \<noteq> [] \<and>
   trim (orEmpty (student1 (str ''name''))) \<noteq> [] \<and>
   handleStudentSubmission plainSheet student1 afterDuration mathsWorld
     \<noteq> Inr (Error (str ''Session is closed''), mathsWorld) \<and>
   handleStudentSubmission plainSheet student1 afterDuration (snd (stopSession mathsWorld)) =
     Inr (Error (str ''Session is closed''), snd (stopSession mathsWorld))"
proof -
  have a: "toLowerCase plainSheet (trim (orEmpty (student1 (str ''email'')))) \<noteq> []"
    by (simp add: eval_defs)
  have b: "trim (orEmpty (student1 (str ''name''))) \<noteq> []"
    by (simp add: eval_defs)
  have c: "getSessionState mathsWorld =
      Some \<lparr>sessionName = Some (str ''Maths''),
            startedAt = Some (str ''1970-01-01T00:00:00.000Z''), active = True\<rparr>"
    by (simp add: eval_defs)
  from session_closed_by_flag_only[OF a b, of afterDuration mathsWorld] a b c
  show ?thesis by simp
qed




text \<open>
  C4 as stated fails: with sessions S1 and S2 created one after the other, the stop
  request leaves S2 inactive and a submission is then refused.
\<close>

theorem stop_hits_other_session_counterexample:
  "getSessionState (run plainSheet stopAfterTwo world0) =
     Some \<lparr>sessionName = Some (str ''S2''),
           startedAt = Some (str ''1970-01-01T00:00:00.000Z''), active = False\<rparr> \<and>
   fst (doPost plainSheet (Submit student1) afterDuration (run plainSheet stopAfterTwo world0)) =
     Error (str ''Session is closed'')"
  by (simp add: stopAfterTwo_def eval_defs)

text \<open>
  C4 (amended). The script keeps one current session and its stop request names no
  session: after S1 and then S2 are created, S2 is the current session, a stop
  deactivates S2, and submissions are then refused as closed.
\<close>

theorem stop_deactivates_latest_session:
  assumes "trim n1 \<noteq> []" and "trim n2 \<noteq> []" and "truthy (SHEET_ID (props w))"
    and "toLowerCase P (trim (orEmpty (p (str ''email'')))) \<noteq> []"
    and "trim (orEmpty (p (str ''name''))) \<noteq> []"
  shows "getSessionState (run P [(StartSession n1, d1), (StartSession n2, d2)] w) =
           Some \<lparr>sessionName = Some (trim n2), startedAt = Some (isoString d2), active = True\<rparr> \<and>
         getSessionState
             (run P [(StartSession n1, d1), (StartSession n2, d2), (StopSession, d3)] w) =
           Some \<lparr>sessionName = Some (trim n2), startedAt = Some (isoString d2), active = False\<rparr> \<and>
         fst (doPost P (Submit p) d4
                (run P [(StartSession n1, d1), (StartSession n2, d2), (StopSession, d3)] w)) =
           Error (str ''Session is closed'')"
proof -
  let ?w1 = "snd (startSession n1 d1 w)"
  let ?w3 = "run P [(StartSession n1, d1), (StartSession n2, d2), (StopSession, d3)] w"
  have t: "truthy (SHEET_ID (props ?w1))"
    using assms(3) by (simp add: SHEET_ID_startSession)
  have g: "getSessionState (snd (startSession n2 d2 ?w1)) =
           Some \<lparr>sessionName = Some (trim n2), startedAt = Some (isoString d2), active = True\<rparr>"
    using assms(2) t
    by (auto simp: startSession_def[of n2] Let_def getSessionState_def setSessionState_def trim_Nil)
  then have g3: "getSessionState ?w3 =
           Some \<lparr>sessionName = Some (trim n2), startedAt = Some (isoString d2), active = False\<rparr>"
    by (simp add: doPost_def stopSession_def getSessionState_def setSessionState_def Let_def)
  have "handleStudentSubmission P p d4 ?w3 = Inr (Error (str ''Session is closed''), ?w3)"
    by (rule inactive_session_rejects[OF g3 _ assms(4,5)]) simp
  then have "fst (doPost P (Submit p) d4 ?w3) = Error (str ''Session is closed'')"
    by (simp add: doPost_def[of P "Submit p"])
  with g g3 show ?thesis by (simp add: doPost_def[of P "StartSession _"])
qed

theorem stop_deactivates_latest_session_witness:
  "trim (str ''S1'') \<noteq> [] \<and> trim (str ''S2'') \<noteq> [] \<and> truthy (SHEET_ID (props world0)) \<and>
   toLowerCase plainSheet (trim (orEmpty (student1 (str ''email'')))) \<noteq> [] \<and>
   trim (orEmpty (student1 (str ''name''))) \<noteq> [] \<and>
   getSessionState (run plainSheet [(StartSession (str ''S1''), sessionStart),
                                    (StartSession (str ''S2''), sessionStart)] world0) =
     Some \<lparr>sessionName = Some (str ''S2''),
           startedAt = Some (str ''1970-01-01T00:00:00.000Z''), active = True\<rparr> \<and>
   getSessionState (run plainSheet [(StartSession (str ''S1''), sessionStart),
                                    (StartSession (str ''S2''), sessionStart),
                                    (StopSession, afterDuration)] world0) =
     Some \<lparr>sessionName = Some (str ''S2''),
           startedAt = Some (str ''1970-01-01T00:00:00.000Z''), active = False\<rparr> \<and>
   fst (doPost plainSheet (Submit student1) afterDuration
          (run plainSheet [(StartSession (str ''S1''), sessionStart),
                           (StartSession (str ''S2''), sessionStart),
                           (StopSession, afterDuration)] world0)) =
     Error (str ''Session is closed'')"
proof -
  have a: "trim (str ''S1'') \<noteq> []" by (simp add: eval_defs)
  have b: "trim (str ''S2'') \<noteq> []" by (simp add: eval_defs)
  have c: "truthy (SHEET_ID (props world0))" by (simp add: eval_defs)
  have d: "trim (str ''S2'') = str ''S2''" by (simp add: eval_defs)
  have e: "toLowerCase plainSheet (trim (orEmpty (student1 (str ''email'')))) \<noteq> []"
    by (simp add: eval_defs)
  have f: "trim (orEmpty (student1 (str ''name''))) \<noteq> []"
    by (simp add: eval_defs)
  have i: "isoString sessionStart = str ''1970-01-01T00:00:00.000Z''"
    by (simp add: sessionStart_def atTime_def)
  note t = stop_deactivates_latest_session[OF a b c e f,
      of sessionStart sessionStart afterDuration afterDuration]
  show ?thesis
    using t a b c e f by (simp only: d i) simp
qed

text \<open>
  C5 as stated fails: a second session created under the name of an earlier one is
  accepted with the very same answer, and a student recorded in the first is refused in
  the second as a duplicate.
\<close>

theorem name_collision_counterexample:
  "fst (startSession (str ''Maths'') sessionStart world0) =
     SessionStarted (str ''Maths'') (str ''https://docs.google.com/spreadsheets/d/sheet-1/edit'') \<and>
   fst (startSession (str ''Maths'') afterRetention (run plainSheet oldSession world0)) =
     SessionStarted (str ''Maths'') (str ''https://docs.google.com/spreadsheets/d/sheet-1/edit'') \<and>
   getSessionState (snd (startSession (str ''Maths'') sessionStart world0)) \<noteq>
     getSessionState
       (snd (startSession (str ''Maths'') afterRetention (run plainSheet oldSession world0))) \<and>
   fst (doPost plainSheet (Submit student1) afterRetention
          (snd (startSession (str ''Maths'') afterRetention
                  (run plainSheet oldSession world0)))) =
     Error (str ''You have already submitted for this session'')"
  by (simp add: oldSession_def eval_defs)

text \<open>
  C5 (amended). \<open>startSession\<close> generates no access code and checks nothing against
  earlier sessions: a session is identified by its trimmed name only, and creating a
  session whose trimmed name equals that of the session before it succeeds with the same
  answer and the same stored name.
\<close>

theorem startSession_identifies_by_name:
  assumes "trim n1 = trim n2" and "trim n1 \<noteq> []" and "truthy (SHEET_ID (props w))"
  shows "fst (startSession n2 d2 (snd (startSession n1 d1 w))) = fst (startSession n1 d1 w) \<and>
         map_option sessionName
             (getSessionState (snd (startSession n2 d2 (snd (startSession n1 d1 w))))) =
           Some (Some (trim n1)) \<and>
         map_option sessionName (getSessionState (snd (startSession n1 d1 w))) =
           Some (Some (trim n1))"
  using assms
  by (auto simp: startSession_def Let_def getSessionState_def setSessionState_def trim_Nil
      openById_def split: option.splits)

theorem startSession_identifies_by_name_witness:
  "trim (str '' Maths'') = trim (str ''Maths '') \<and> trim (str '' Maths'') \<noteq> [] \<and>
   truthy (SHEET_ID (props world0)) \<and>
   fst (startSession (str ''Maths '') afterDuration
          (snd (startSession (str '' Maths'') sessionStart world0))) =
     fst (startSession (str '' Maths'') sessionStart world0) \<and>
   map_option sessionName
     (getSessionState (snd (startSession (str ''Maths '') afterDuration
        (snd (startSession (str '' Maths'') sessionStart world0))))) = Some (Some (str ''Maths''))"
proof -
  have a: "trim (str '' Maths'') = trim (str ''Maths '')" by (simp add: eval_defs)
  have b: "trim (str '' Maths'') \<noteq> []" by (simp add: eval_defs)
  have c: "truthy (SHEET_ID (props world0))" by (simp add: eval_defs)
  note t = startSession_identifies_by_name[OF a b c, of afterDuration sessionStart]
  have d: "trim (str '' Maths'') = str ''Maths''" by (simp add: eval_defs)
  have t1: "fst (startSession (str ''Maths '') afterDuration
          (snd (startSession (str '' Maths'') sessionStart world0))) =
     fst (startSession (str '' Maths'') sessionStart world0)"
    by (rule t[THEN conjunct1])
  have t2: "map_option sessionName
     (getSessionState (snd (startSession (str ''Maths '') afterDuration
        (snd (startSession (str '' Maths'') sessionStart world0))))) = Some (Some (str ''Maths''))"
    using t[THEN conjunct2, THEN conjunct1] by (simp only: d)
  show ?thesis by (intro conjI a b c t1 t2)
qed

text \<open>
  C6 as stated fails: three days after the session, past the two-day window, the record
  is still returned by \<open>getResponses\<close>.
\<close>

theorem old_record_still_returned_counterexample:
  "epochMs sessionStart + RETENTION_WINDOW_MS < epochMs afterRetention \<and>
   getResponses (Some (str ''Maths''))
       (run plainSheet (oldSession @ [(StartSession (str ''Physics''), afterRetention)]) world0) =
     Responses (map (\<lambda>h. Text (str h))
                  [''Email'', ''Roll Number'', ''Session Name'', ''Date'', ''Time'', ''Timestamp''])
       [[str ''Email'' \<mapsto> Text (str ''student1@college.edu''),
         str ''Roll Number'' \<mapsto> Text (str ''21ME001''),
         str ''Session Name'' \<mapsto> Text (str ''Maths''),
         str ''Date'' \<mapsto> Text (str ''01/01/1970''),
         str ''Time'' \<mapsto> Text (str ''00:00:00''),
         str ''Timestamp'' \<mapsto> Text (str ''1970-01-01T00:00:00.000Z'')]] 1"
  by (simp add: oldSession_def RETENTION_WINDOW_MS_def getResponses_def rowObject_def
      keepsRow_def eval_defs)

text \<open>
  C6 (amended). The script has no retention window. Whatever requests \<open>doPost\<close> serves,
  overlapping or not, no row of the Attendance sheet is ever removed (the sheet only
  grows) and the session state, once written, is never deleted; the requests of \<open>doGet\<close>
  only read. \<open>getResponses\<close> reads no
  clock: it returns one object for every row after the header, or, given a session
  filter and a Session Name column, for every such row whose session cell is that name,
  whatever the age of the row.
\<close>

theorem responses_never_age_out:
  "(\<exists>new. attendanceCells (fst (exec P es (w, pending))) = attendanceCells w @ new) \<and>
   (getSessionState w \<noteq> None \<longrightarrow> getSessionState (fst (exec P es (w, pending))) \<noteq> None) \<and>
   (truthy (SHEET_ID (props w)) \<and> openById w (SHEET_ID (props w)) = Inr ss \<longrightarrow>
      getResponses f w =
        (let headers = hd (getValues (cells ss));
             kept = filter
                      (\<lambda>r. \<not> truthy f \<or>
                           indexOf headers (Text (str ''Session Name'')) = None \<or>
                           (\<exists>c. indexOf headers (Text (str ''Session Name'')) = Some c \<and>
                                cell r c = map_option Text f))
                      (tl (getValues (cells ss)))
         in Responses headers (map (rowObject headers) kept) (length kept)))"
proof (intro conjI impI)
  show "\<exists>new. attendanceCells (fst (exec P es (w, pending))) = attendanceCells w @ new"
    using exec_cells_grow[of P es "(w, pending)"] by simp
next
  assume "getSessionState w \<noteq> None"
  then show "getSessionState (fst (exec P es (w, pending))) \<noteq> None"
    using exec_session_kept[of "(w, pending)" P es] by simp
next
  assume h: "truthy (SHEET_ID (props w)) \<and> openById w (SHEET_ID (props w)) = Inr ss"
  have k: "keepsRow f (indexOf (hd (getValues (cells ss))) (Text (str ''Session Name''))) =
      (\<lambda>r. \<not> truthy f \<or>
           indexOf (hd (getValues (cells ss))) (Text (str ''Session Name'')) = None \<or>
           (\<exists>c. indexOf (hd (getValues (cells ss))) (Text (str ''Session Name'')) = Some c \<and>
                cell r c = map_option Text f))"
    by (rule ext) (auto simp: keepsRow_def strictEq_def split: option.splits)
  have short: "length (getValues (cells ss)) \<le> 1 \<Longrightarrow> tl (getValues (cells ss)) = []"
    by (cases "getValues (cells ss)") simp_all
  show "getResponses f w =
        (let headers = hd (getValues (cells ss));
             kept = filter
                      (\<lambda>r. \<not> truthy f \<or>
                           indexOf headers (Text (str ''Session Name'')) = None \<or>
                           (\<exists>c. indexOf headers (Text (str ''Session Name'')) = Some c \<and>
                                cell r c = map_option Text f))
                      (tl (getValues (cells ss)))
         in Responses headers (map (rowObject headers) kept) (length kept))"
  proof (cases "length (getValues (cells ss)) \<le> 1")
    case True
    with h short show ?thesis by (simp add: getResponses_def Let_def)
  next
    case False
    with h show ?thesis by (simp add: getResponses_def Let_def k)
  qed
qed

theorem responses_never_age_out_witness:
  "getSessionState oldWorld \<noteq> None \<and>
   getSessionState
     (fst (exec plainSheet [Serve (StartSession (str ''Physics'')) afterRetention]
             (oldWorld, Map.empty))) \<noteq> None \<and>
   (\<exists>new. attendanceCells
            (fst (exec plainSheet [Serve (StartSession (str ''Physics'')) afterRetention]
                    (oldWorld, Map.empty))) = attendanceCells oldWorld @ new) \<and>
   getResponses (Some (str ''Maths'')) oldWorld =
     Responses headerRow [rowObject headerRow mathsRow] 1 \<and>
   getResponses (Some (str ''Physics'')) oldWorld = Responses headerRow [] 0 \<and>
   getResponses None oldWorld = Responses headerRow [rowObject headerRow mathsRow] 1"
proof -
  let ?ss = "\<lparr>url = str ''https://docs.google.com/spreadsheets/d/sheet-1/edit'',
              cells = [headerRow, mathsRow]\<rparr>"
  let ?es = "[Serve (StartSession (str ''Physics'')) afterRetention]"
  have a: "truthy (SHEET_ID (props oldWorld)) \<and>
           openById oldWorld (SHEET_ID (props oldWorld)) = Inr ?ss"
    using oldWorld_sheet by (simp add: oldWorld_def oldSession_def eval_defs)
  have s: "getSessionState oldWorld \<noteq> None"
    by (simp add: oldWorld_def oldSession_def eval_defs)
  have v: "getValues [headerRow, mathsRow] = [headerRow, mathsRow]"
    by (simp add: headerRow_def mathsRow_def getValues_def lastColumn_def padRow_def)
  have ix: "indexOf headerRow (Text (str ''Session Name'')) = Some 2"
    by (simp add: headerRow_def str_eq_iff)
  have c2: "cell mathsRow 2 = Some (Text (str ''Maths''))"
    by (simp add: mathsRow_def cell_def)
  note t = responses_never_age_out[of plainSheet ?es oldWorld Map.empty ?ss]
  have g1: "getResponses (Some (str ''Maths'')) oldWorld =
     Responses headerRow [rowObject headerRow mathsRow] 1"
    using t[where f="Some (str ''Maths'')", THEN conjunct2, THEN conjunct2, rule_format, OF a]
    by (simp add: v ix c2 Let_def truthy_def str_Nil_iff)
  have g2: "getResponses (Some (str ''Physics'')) oldWorld = Responses headerRow [] 0"
    using t[where f="Some (str ''Physics'')", THEN conjunct2, THEN conjunct2, rule_format, OF a]
    by (simp add: v ix c2 Let_def truthy_def str_Nil_iff str_eq_iff)
  have g3: "getResponses None oldWorld = Responses headerRow [rowObject headerRow mathsRow] 1"
    using t[where f=None, THEN conjunct2, THEN conjunct2, rule_format, OF a]
    by (simp add: v Let_def truthy_def)
  show ?thesis
    using t[where f=None, THEN conjunct1]
      t[where f=None, THEN conjunct2, THEN conjunct1, rule_format, OF s] s g1 g2 g3
    by simp
qed

text \<open>
  C7. Stopping a session that is already stopped answers without error and leaves the
  whole world as it was; stopping twice is the same as stopping once.
\<close>

theorem stopSession_idempotent:
  "(\<forall>s. getSessionState w = Some s \<and> \<not> active s \<longrightarrow>
        stopSession w = (SessionStopped (sessionName s), w)) \<and>
   snd (stopSession (snd (stopSession w))) = snd (stopSession w)"
  by (simp add: stopSession_def getSessionState_def setSessionState_def Let_def
      split: option.splits)

theorem stopSession_idempotent_witness:
  "getSessionState (snd (stopSession mathsWorld)) =
     Some \<lparr>sessionName = Some (str ''Maths''),
           startedAt = Some (str ''1970-01-01T00:00:00.000Z''), active = False\<rparr> \<and>
   stopSession (snd (stopSession mathsWorld)) =
     (SessionStopped (Some (str ''Maths'')), snd (stopSession mathsWorld))"
proof -
  have g: "getSessionState (snd (stopSession mathsWorld)) =
     Some \<lparr>sessionName = Some (str ''Maths''),
           startedAt = Some (str ''1970-01-01T00:00:00.000Z''), active = False\<rparr>"
    by (simp add: eval_defs)
  from stopSession_idempotent[of "snd (stopSession mathsWorld)",
      THEN conjunct1, rule_format, of "\<lparr>sessionName = Some (str ''Maths''),
        startedAt = Some (str ''1970-01-01T00:00:00.000Z''), active = False\<rparr>"] g
  show ?thesis by simp
qed



text \<open>
  C9 as stated fails: before \<open>initialSetup\<close> a name that is not empty after trimming is
  refused.
\<close>

theorem startSession_without_setup_counterexample:
  "trim (str ''Maths'') \<noteq> [] \<and>
   startSession (str ''Maths'') sessionStart freshWorld =
     (Error (str ''Run initialSetup() first from the script editor''), freshWorld)"
  by (simp add: eval_defs freshWorld_def)

text \<open>
  C9 (amended). A name that is empty after trimming is refused with the error
  "Session name is required" and the world is unchanged. A name that is not empty after
  trimming is accepted only when the property SHEET_ID is set: then the stored session
  carries the trimmed name; otherwise the request is refused with the setup error and
  the world is unchanged.
\<close>

theorem startSession_name_check:
  "(trim name = [] \<longrightarrow>
      startSession name now w = (Error (str ''Session name is required''), w)) \<and>
   (trim name \<noteq> [] \<and> \<not> truthy (SHEET_ID (props w)) \<longrightarrow>
      startSession name now w =
        (Error (str ''Run initialSetup() first from the script editor''), w)) \<and>
   (trim name \<noteq> [] \<and> truthy (SHEET_ID (props w)) \<longrightarrow>
      (\<exists>u. fst (startSession name now w) = SessionStarted (trim name) u) \<and>
      getSessionState (snd (startSession name now w)) =
        Some \<lparr>sessionName = Some (trim name), startedAt = Some (isoString now), active = True\<rparr>)"
  by (auto simp: startSession_def Let_def getSessionState_def setSessionState_def trim_Nil)

theorem startSession_name_check_witness:
  "startSession [0x20, 0xA0, 0x2003, 0xFEFF, 0x0A] sessionStart world0 =
     (Error (str ''Session name is required''), world0) \<and>
   startSession (str ''Maths'') sessionStart freshWorld =
     (Error (str ''Run initialSetup() first from the script editor''), freshWorld) \<and>
   getSessionState (snd (startSession (0xA0 # str '' Maths '') sessionStart world0)) =
     Some \<lparr>sessionName = Some (str ''Maths''),
           startedAt = Some (str ''1970-01-01T00:00:00.000Z''), active = True\<rparr>"
proof -
  have a: "trim [0x20, 0xA0, 0x2003, 0xFEFF, 0x0A] = []" by (simp add: eval_defs)
  have b: "trim (str ''Maths'') \<noteq> [] \<and> \<not> truthy (SHEET_ID (props freshWorld))"
    by (simp add: eval_defs freshWorld_def)
  have c: "trim (0xA0 # str '' Maths '') \<noteq> [] \<and> truthy (SHEET_ID (props world0))"
    by (simp add: eval_defs)
  have d: "trim (0xA0 # str '' Maths '') = str ''Maths''" by (simp add: eval_defs)
  have i: "isoString sessionStart = str ''1970-01-01T00:00:00.000Z''"
    by (simp add: sessionStart_def atTime_def)
  note t1 = startSession_name_check[where name="[0x20, 0xA0, 0x2003, 0xFEFF, 0x0A]"
        and w=world0 and now=sessionStart, THEN conjunct1, rule_format, OF a]
  note t2 = startSession_name_check[where name="str ''Maths''" and w=freshWorld
        and now=sessionStart, THEN conjunct2, THEN conjunct1, rule_format, OF b]
  note t3 = startSession_name_check[where name="0xA0 # str '' Maths ''" and w=world0
        and now=sessionStart, THEN conjunct2, THEN conjunct2, rule_format, OF c,
        THEN conjunct2]
  have t3': "getSessionState (snd (startSession (0xA0 # str '' Maths '') sessionStart world0)) =
     Some \<lparr>sessionName = Some (str ''Maths''),
           startedAt = Some (str ''1970-01-01T00:00:00.000Z''), active = True\<rparr>"
    using t3 by (simp only: d i)
  show ?thesis by (intro conjI t1 t2 t3')
qed

text \<open>
  C10 as stated fails: the session created by \<open>startSession n\<close> is named by the trimmed
  \<open>n\<close>, not by \<open>n\<close>.
\<close>

theorem session_not_named_as_given_counterexample:
  "map_option sessionName
     (getSessionState (snd (startSession (str '' Maths '') sessionStart mathsWorld))) =
     Some (Some (str ''Maths'')) \<and>
   str ''Maths'' \<noteq> str '' Maths '' \<and>
   fst (startSession (str '' Maths '') sessionStart mathsWorld) =
     SessionStarted (str ''Maths'') (str ''https://docs.google.com/spreadsheets/d/sheet-1/edit'')"
  by (simp add: eval_defs)

text \<open>
  C10 (amended). Creating a session overwrites the one current-session state whatever it
  was: after a successful \<open>startSession n\<close> the current session is the one named
  \<open>trim n\<close>, active. Until the next start, whatever requests are served, overlapping or
  not, every row appended carries \<open>trim n\<close> in its session column, but for the rows of
  submissions that were already in flight when the session was created; every
  submission that is accepted appends exactly one row, with its email and \<open>trim n\<close>; and
  while the session is active a submission with an email and a name that the duplicate
  scan does not find under \<open>trim n\<close> is accepted.
\<close>

theorem startSession_overwrites_current:
  assumes "trim n \<noteq> []" and "truthy (SHEET_ID (props w))"
    and "list_all (\<lambda>e. \<not> startsSession e) es"
  shows "getSessionState (snd (startSession n now w)) =
           Some \<lparr>sessionName = Some (trim n), startedAt = Some (isoString now), active = True\<rparr> \<and>
         (\<exists>new. attendanceCells (fst (exec P es (snd (startSession n now w), old))) =
                  attendanceCells (snd (startSession n now w)) @ new \<and>
                (\<forall>r \<in> set new. cell r 2 = Some (entered P (trim n)) \<or>
                   (\<exists>k i row. old k = Some (i, row) \<and> r = map (entered P) row))) \<and>
         (\<forall>p d. fst (doPost P (Submit p) d
                     (fst (exec P es (snd (startSession n now w), old)))) = AttendanceRecorded
            \<longrightarrow> (\<exists>row. attendanceCells
                         (snd (doPost P (Submit p) d
                                (fst (exec P es (snd (startSession n now w), old))))) =
                       attendanceCells (fst (exec P es (snd (startSession n now w), old))) @ [row] \<and>
                     cell row 0 =
                       Some (entered P (toLowerCase P (trim (orEmpty (p (str ''email'')))))) \<and>
                     cell row 2 = Some (entered P (trim n)))) \<and>
         (\<forall>p d s i ss.
            getSessionState (fst (exec P es (snd (startSession n now w), old))) = Some s \<and>
            active s \<and>
            toLowerCase P (trim (orEmpty (p (str ''email'')))) \<noteq> [] \<and>
            trim (orEmpty (p (str ''name''))) \<noteq> [] \<and>
            SHEET_ID (props (fst (exec P es (snd (startSession n now w), old)))) = Some i \<and>
            drive (fst (exec P es (snd (startSession n now w), old))) i = Some ss \<and>
            scanDuplicate P (toLowerCase P (trim (orEmpty (p (str ''email'')))))
              (Some (trim n)) (tl (getValues (cells ss))) = Inr False
            \<longrightarrow> fst (doPost P (Submit p) d
                       (fst (exec P es (snd (startSession n now w), old)))) = AttendanceRecorded)"
proof -
  let ?w1 = "snd (startSession n now w)"
  have g: "getSessionState ?w1 =
           Some \<lparr>sessionName = Some (trim n), startedAt = Some (isoString now), active = True\<rparr>"
    using assms(1,2)
    by (auto simp: startSession_def Let_def getSessionState_def setSessionState_def trim_Nil)
  have inv0: "namedOrOld (trim n) old (?w1, old)"
    using g by (auto simp: namedOrOld_def)
  note ex = exec_namedOrOld[OF inv0 assms(3), of P]
  from ex obtain s where s: "getSessionState (fst (exec P es (?w1, old))) = Some s"
    "sessionName s = Some (trim n)"
    by (auto simp: namedOrOld_def)
  have acc: "\<forall>p d. fst (doPost P (Submit p) d (fst (exec P es (?w1, old)))) = AttendanceRecorded
            \<longrightarrow> (\<exists>row. attendanceCells
                         (snd (doPost P (Submit p) d (fst (exec P es (?w1, old))))) =
                       attendanceCells (fst (exec P es (?w1, old))) @ [row] \<and>
                     cell row 0 =
                       Some (entered P (toLowerCase P (trim (orEmpty (p (str ''email'')))))) \<and>
                     cell row 2 = Some (entered P (trim n)))"
    using accepted_appends[OF _ s] by blast
  have taken: "\<forall>p d s i ss.
            getSessionState (fst (exec P es (?w1, old))) = Some s \<and>
            active s \<and>
            toLowerCase P (trim (orEmpty (p (str ''email'')))) \<noteq> [] \<and>
            trim (orEmpty (p (str ''name''))) \<noteq> [] \<and>
            SHEET_ID (props (fst (exec P es (?w1, old)))) = Some i \<and>
            drive (fst (exec P es (?w1, old))) i = Some ss \<and>
            scanDuplicate P (toLowerCase P (trim (orEmpty (p (str ''email'')))))
              (Some (trim n)) (tl (getValues (cells ss))) = Inr False
            \<longrightarrow> fst (doPost P (Submit p) d (fst (exec P es (?w1, old)))) = AttendanceRecorded"
  proof (intro allI impI)
    fix p d s' i ss
    assume h: "getSessionState (fst (exec P es (?w1, old))) = Some s' \<and>
            active s' \<and>
            toLowerCase P (trim (orEmpty (p (str ''email'')))) \<noteq> [] \<and>
            trim (orEmpty (p (str ''name''))) \<noteq> [] \<and>
            SHEET_ID (props (fst (exec P es (?w1, old)))) = Some i \<and>
            drive (fst (exec P es (?w1, old))) i = Some ss \<and>
            scanDuplicate P (toLowerCase P (trim (orEmpty (p (str ''email'')))))
              (Some (trim n)) (tl (getValues (cells ss))) = Inr False"
    with s have "sessionName s' = Some (trim n)" by simp
    with h show "fst (doPost P (Submit p) d (fst (exec P es (?w1, old)))) = AttendanceRecorded"
      by (intro submission_accepted[where s=s' and i=i and ss=ss]) simp_all
  qed
  from g ex acc taken show ?thesis by simp
qed

theorem startSession_overwrites_current_witness:
  "trim (str '' Physics '') \<noteq> [] \<and> truthy (SHEET_ID (props mathsWorld)) \<and>
   getSessionState mathsWorld =
     Some \<lparr>sessionName = Some (str ''Maths''),
           startedAt = Some (str ''1970-01-01T00:00:00.000Z''), active = True\<rparr> \<and>
   getSessionState physicsWorld =
     Some \<lparr>sessionName = Some (str ''Physics''),
           startedAt = Some (str ''1970-01-01T00:10:00.001Z''), active = True\<rparr> \<and>
   attendanceCells (fst (exec plainSheet splitSubmission (physicsWorld, Map.empty))) =
     attendanceCells physicsWorld @ [physicsRow] \<and>
   cell physicsRow 2 = Some (Text (str ''Physics'')) \<and>
   fst (doPost plainSheet (Submit student2) afterRetention
          (fst (exec plainSheet splitSubmission (physicsWorld, Map.empty)))) =
     AttendanceRecorded \<and>
   (\<exists>row. attendanceCells
            (snd (doPost plainSheet (Submit student2) afterRetention
                    (fst (exec plainSheet splitSubmission (physicsWorld, Map.empty))))) =
           attendanceCells (fst (exec plainSheet splitSubmission (physicsWorld, Map.empty))) @
             [row] \<and>
          cell row 0 = Some (Text (str ''student2@college.edu'')) \<and>
          cell row 2 = Some (Text (str ''Physics'')))"
proof -
  let ?w2 = "fst (exec plainSheet splitSubmission (physicsWorld, Map.empty))"
  let ?s = "\<lparr>sessionName = Some (str ''Physics''),
             startedAt = Some (str ''1970-01-01T00:10:00.001Z''), active = True\<rparr>"
  let ?ss = "\<lparr>url = str ''https://docs.google.com/spreadsheets/d/sheet-1/edit'',
              cells = [headerRow, physicsRow]\<rparr>"
  have a: "trim (str '' Physics '') \<noteq> []" by (simp add: eval_defs)
  have b: "truthy (SHEET_ID (props mathsWorld))" by (simp add: eval_defs)
  have c: "list_all (\<lambda>e. \<not> startsSession e) splitSubmission"
    by (simp add: splitSubmission_def)
  have d: "trim (str '' Physics '') = str ''Physics''" by (simp add: eval_defs)
  have i: "isoString afterDuration = str ''1970-01-01T00:10:00.001Z''"
    by (simp add: afterDuration_def atTime_def)
  have e: "getSessionState mathsWorld =
     Some \<lparr>sessionName = Some (str ''Maths''),
           startedAt = Some (str ''1970-01-01T00:00:00.000Z''), active = True\<rparr>"
    by (simp add: eval_defs)
  have l: "toLowerCase plainSheet (trim (orEmpty (student2 (str ''email'')))) =
           str ''student2@college.edu''"
    by (simp add: eval_defs)
  have rows: "attendanceCells ?w2 = attendanceCells physicsWorld @ [physicsRow]"
    by (simp add: attendanceCells_def physicsWorld_def splitSubmission_def physicsRow_def
        eval_defs)
  have c2: "cell physicsRow 2 = Some (Text (str ''Physics''))"
    by (simp add: physicsRow_def cell_def)
  have cond: "getSessionState ?w2 = Some ?s \<and> active ?s \<and>
      toLowerCase plainSheet (trim (orEmpty (student2 (str ''email'')))) \<noteq> [] \<and>
      trim (orEmpty (student2 (str ''name''))) \<noteq> [] \<and>
      SHEET_ID (props ?w2) = Some (str ''sheet-1'') \<and>
      drive ?w2 (str ''sheet-1'') = Some ?ss \<and>
      scanDuplicate plainSheet (toLowerCase plainSheet (trim (orEmpty (student2 (str ''email'')))))
        (Some (trim (str '' Physics ''))) (tl (getValues (cells ?ss))) = Inr False"
    by (simp add: physicsWorld_def splitSubmission_def physicsRow_def headerRow_def
        eval_defs)
  note t = startSession_overwrites_current[OF a b c, of afterDuration plainSheet Map.empty,
      folded physicsWorld_def]
  have t1: "getSessionState physicsWorld =
     Some \<lparr>sessionName = Some (str ''Physics''),
           startedAt = Some (str ''1970-01-01T00:10:00.001Z''), active = True\<rparr>"
    using t[THEN conjunct1] by (simp only: d i)
  have acc: "fst (doPost plainSheet (Submit student2) afterRetention ?w2) = AttendanceRecorded"
    by (rule t[THEN conjunct2, THEN conjunct2, THEN conjunct2, rule_format, OF cond])
  have t3: "\<exists>row. attendanceCells
            (snd (doPost plainSheet (Submit student2) afterRetention ?w2)) =
           attendanceCells ?w2 @ [row] \<and>
          cell row 0 = Some (Text (str ''student2@college.edu'')) \<and>
          cell row 2 = Some (Text (str ''Physics''))"
    using t[THEN conjunct2, THEN conjunct2, THEN conjunct1, rule_format, OF acc]
    by (simp add: d l) (simp add: plainSheet_def)
  show ?thesis by (intro conjI a b e t1 rows c2 acc t3)
qed

end
